theory Spec2Isabelle
  imports Main
begin

section \<open>OBO text escaping (\<^verbatim>\<open>src/pyobo/struct/utils.py\<close>)\<close>

text \<open>
  Python strings are sequences of characters; they are modelled as \<^typ>\<open>string\<close>.
  Every character that is not a key of a substitution table takes the default branch of
  \<^verbatim>\<open>dict.get\<close>, so all characters outside the tables are treated alike.

  Three characters have no convenient literal and are written by their code.
\<close>

abbreviation backslash :: char where
  "backslash \<equiv> CHR 0x5C"

abbreviation dquote :: char where
  "dquote \<equiv> CHR 0x22"

abbreviation newline :: char where
  "newline \<equiv> CHR 0x0A"

subsection \<open>The Python primitives the module uses\<close>

text \<open>
  A \<^verbatim>\<open>dict\<close> is an association list in insertion order with distinct keys;
  \<^verbatim>\<open>d.get(key, default)\<close> returns the stored value or the default and never raises.
\<close>

definition dict_get :: "('k \<times> 'v) list \<Rightarrow> 'k \<Rightarrow> 'v \<Rightarrow> 'v" where
  "dict_get d k dflt = (case map_of d k of None \<Rightarrow> dflt | Some v \<Rightarrow> v)"

text \<open>
  \<^verbatim>\<open>s.replace(old, new)\<close>: the non-overlapping occurrences of \<^verbatim>\<open>old\<close> are replaced,
  scanning from the left. With an empty \<^verbatim>\<open>old\<close> Python puts \<^verbatim>\<open>new\<close> before every
  character and at the end.
\<close>

function replace_scan :: "string \<Rightarrow> string \<Rightarrow> string \<Rightarrow> string" where
  "replace_scan old new [] = []"
| "replace_scan old new (c # cs) =
     (if old \<noteq> [] \<and> take (length old) (c # cs) = old
      then new @ replace_scan old new (drop (length old) (c # cs))
      else c # replace_scan old new cs)"
  by pat_completeness auto
termination
  by (relation "measure (\<lambda>(old, new, s). length s)") auto

definition str_replace :: "string \<Rightarrow> string \<Rightarrow> string \<Rightarrow> string" where
  "str_replace s old new =
     (if old = [] then new @ concat (map (\<lambda>c. c # new) s) else replace_scan old new s)"

subsection \<open>The substitution tables\<close>

text \<open>
  \<^verbatim>\<open>OBO_ESCAPE_SLIM = {c: f"\\{c}" for c in ':,"\\()[]{}'}\<close>: the string literal holds the
  characters colon, comma, double quote, backslash, both parentheses, both square brackets
  and both curly braces; each is mapped to a backslash followed by itself.
\<close>

definition OBO_ESCAPE_SLIM_chars :: string where
  "OBO_ESCAPE_SLIM_chars =
     [CHR '':'', CHR '','', dquote, backslash, CHR ''('', CHR '')'',
      CHR ''['', CHR '']'', CHR ''{'', CHR ''}'']"

definition OBO_ESCAPE_SLIM :: "(char \<times> string) list" where
  "OBO_ESCAPE_SLIM = map (\<lambda>c. (c, [backslash, c])) OBO_ESCAPE_SLIM_chars"

text \<open>
  \<^verbatim>\<open>OBO_ESCAPE = {" ": "\\W", **OBO_ESCAPE_SLIM}\<close>: the entry for the space comes first,
  the entries of the slim table follow (none of them has the space as its key).
\<close>

definition OBO_ESCAPE :: "(char \<times> string) list" where
  "OBO_ESCAPE = (CHR '' '', [backslash, CHR ''W'']) # OBO_ESCAPE_SLIM"

subsection \<open>The two escaping functions\<close>

definition obo_escape :: "string \<Rightarrow> string" where
  "obo_escape string =
     concat (map (\<lambda>character. dict_get OBO_ESCAPE character [character]) string)"

definition obo_escape_slim :: "string \<Rightarrow> string" where
  "obo_escape_slim string =
     (let rv = concat (map (\<lambda>character. dict_get OBO_ESCAPE_SLIM character [character]) string);
          rv = str_replace rv [newline] [backslash, CHR ''n'']
      in rv)"

subsection \<open>What one character becomes\<close>

text \<open>
  The substitution each function applies to a single character, read off the tables
  (and, for the slim escape, off the later replacement of the newline).
\<close>

definition escape_char :: "char \<Rightarrow> string" where
  "escape_char c =
     (if c \<in> set OBO_ESCAPE_SLIM_chars then [backslash, c]
      else if c = CHR '' '' then [backslash, CHR ''W'']
      else [c])"

definition escape_slim_char :: "char \<Rightarrow> string" where
  "escape_slim_char c =
     (if c \<in> set OBO_ESCAPE_SLIM_chars then [backslash, c]
      else if c = newline then [backslash, CHR ''n'']
      else [c])"

subsection \<open>A decoder for each escaping function\<close>

text \<open>
  The module has no unescaping function. The two decoders below are not part of it:
  they are the functions whose existence shows that each escaping can be undone. A
  backslash announces an escaped character; after it, \<^verbatim>\<open>W\<close> stands for the space
  (full escape), \<^verbatim>\<open>n\<close> for the newline (slim escape), any other character for itself.
\<close>

fun obo_unescape :: "string \<Rightarrow> string" where
  "obo_unescape (c # d # cs) =
     (if c = backslash then (if d = CHR ''W'' then CHR '' '' else d) # obo_unescape cs
      else c # obo_unescape (d # cs))"
| "obo_unescape cs = cs"

fun obo_unescape_slim :: "string \<Rightarrow> string" where
  "obo_unescape_slim (c # d # cs) =
     (if c = backslash then (if d = CHR ''n'' then newline else d) # obo_unescape_slim cs
      else c # obo_unescape_slim (d # cs))"
| "obo_unescape_slim cs = cs"

section \<open>The term data model (\<^verbatim>\<open>pyobo.struct\<close>)\<close>

text \<open>
  The extractors import \<^verbatim>\<open>Reference\<close>, \<^verbatim>\<open>TypeDef\<close> and \<^verbatim>\<open>Term\<close> from
  \<^verbatim>\<open>pyobo.struct\<close>, whose \<^verbatim>\<open>__init__.py\<close> re-exports them from the modules
  \<^verbatim>\<open>reference\<close>, \<^verbatim>\<open>struct\<close> and \<^verbatim>\<open>struct_utils\<close>. Those modules are not among the
  source files, so the classes are modelled from the specification (sections 3, 4 and 7).
  Objects are mutated in place by the Python methods; here every method takes the term and
  returns the updated term, and a raised exception is the left injection of a sum.
\<close>

datatype error = InvalidReference | InvalidTypeDef

record Reference =
  prefix :: string
  "identifier" :: string
  name :: "string option"

text \<open>
  Modelled from the spec: the constructor of \<^verbatim>\<open>Reference\<close> (module
  \<^verbatim>\<open>pyobo.struct.reference\<close> is missing). It builds an immutable value and rejects an
  empty prefix or identifier with \<^verbatim>\<open>InvalidReference\<close>.
\<close>

definition Reference_init :: "string \<Rightarrow> string \<Rightarrow> string option \<Rightarrow> error + Reference" where
  "Reference_init p i n =
     (if p = [] \<or> i = [] then Inl InvalidReference
      else Inr \<lparr>prefix = p, identifier = i, name = n\<rparr>)"

text \<open>
  Modelled from the spec: equality and hash of \<^verbatim>\<open>Reference\<close> (module
  \<^verbatim>\<open>pyobo.struct.reference\<close> is missing). Both are based on the pair of prefix and
  identifier only. The hash of that pair is Python's own; it is a parameter here.
\<close>

definition Reference_key :: "Reference \<Rightarrow> string \<times> string" where
  "Reference_key r = (prefix r, identifier r)"

definition Reference_eq :: "Reference \<Rightarrow> Reference \<Rightarrow> bool" where
  "Reference_eq a b = (Reference_key a = Reference_key b)"

definition Reference_hash :: "(string \<times> string \<Rightarrow> int) \<Rightarrow> Reference \<Rightarrow> int" where
  "Reference_hash tuple_hash r = tuple_hash (Reference_key r)"

text \<open>
  Modelled from the spec: the class \<^verbatim>\<open>TypeDef\<close> (module \<^verbatim>\<open>pyobo.struct.struct\<close> is
  missing): a relation identified by a reference, with an optional definition and the flag
  \<^verbatim>\<open>is_metadata_tag\<close>, false unless given. Its equality is that of its reference.
\<close>

record TypeDef =
  td_reference :: Reference
  td_definition :: "string option"
  is_metadata_tag :: bool

definition TypeDef_init :: "Reference \<Rightarrow> string option \<Rightarrow> bool option \<Rightarrow> TypeDef" where
  "TypeDef_init r d m =
     \<lparr>td_reference = r, td_definition = d,
      is_metadata_tag = (case m of None \<Rightarrow> False | Some b \<Rightarrow> b)\<rparr>"

definition TypeDef_eq :: "TypeDef \<Rightarrow> TypeDef \<Rightarrow> bool" where
  "TypeDef_eq a b = Reference_eq (td_reference a) (td_reference b)"

text \<open>
  Modelled from the spec: the class \<^verbatim>\<open>Term\<close> (modules \<^verbatim>\<open>pyobo.struct.struct\<close> and
  \<^verbatim>\<open>pyobo.struct.struct_utils\<close> are missing), with the attributes the operations below
  read or write. The parents are an ordered sequence. The object annotations are a set of
  edges, kept as a list in which no two edges are equal. The literal annotations map a
  typedef to the sequence of its values; the typedef is looked up by the key of its
  reference, and a typedef without values has the empty sequence.
\<close>

record Term =
  reference :: Reference
  parents :: "Reference list"
  object_annotations :: "(TypeDef \<times> Reference) list"
  literal_annotations :: "string \<times> string \<Rightarrow> string list"

definition Term_init :: "Reference \<Rightarrow> Term" where
  "Term_init r =
     \<lparr>reference = r, parents = [], object_annotations = [], literal_annotations = (\<lambda>k. [])\<rparr>"

definition edge_eq :: "TypeDef \<times> Reference \<Rightarrow> TypeDef \<times> Reference \<Rightarrow> bool" where
  "edge_eq e f = (TypeDef_eq (fst e) (fst f) \<and> Reference_eq (snd e) (snd f))"


text \<open>
  Modelled from the spec: \<^verbatim>\<open>Term.annotate_object\<close> fails with \<^verbatim>\<open>InvalidTypeDef\<close> if
  the typedef is a metadata tag; otherwise it records the edge in the set of object
  annotations.
\<close>

definition annotate_object :: "TypeDef \<Rightarrow> Reference \<Rightarrow> Term \<Rightarrow> error + Term" where
  "annotate_object typedef r t =
     (if is_metadata_tag typedef then Inl InvalidTypeDef
      else Inr (if list_ex (edge_eq (typedef, r)) (object_annotations t) then t
                else t\<lparr>object_annotations := object_annotations t @ [(typedef, r)]\<rparr>))"



subsection \<open>A call site: the SILVA extractor\<close>

text \<open>
  \<^verbatim>\<open>src/pyobo/sources/silva.py\<close> declares the typedef \<^verbatim>\<open>HAS_TAXONOMIC_CLASSIFICATION\<close>
  with \<^verbatim>\<open>is_metadata_tag=True\<close> and, for every row of the taxmap file whose taxon is
  known, passes it to \<^verbatim>\<open>annotate_object\<close> on a new term. The reference of the typedef
  comes from \<^verbatim>\<open>default_reference\<close>, which is not among the source files; it is a
  parameter.
\<close>

definition HAS_TAXONOMIC_CLASSIFICATION :: "Reference \<Rightarrow> TypeDef" where
  "HAS_TAXONOMIC_CLASSIFICATION r =
     TypeDef_init r
       (Some ''Indicates that the genome sequence represented by an ENA accession is classified under this taxon by SILVA.'')
       (Some True)"

definition silva_taxmap_term :: "Reference \<Rightarrow> string \<Rightarrow> string \<Rightarrow> string \<Rightarrow> error + Term" where
  "silva_taxmap_term r accession organism species_taxon_id =
     (case Reference_init ''ena.embl'' accession (Some organism) of
        Inl e \<Rightarrow> Inl e
      | Inr new_ref \<Rightarrow>
          (case Reference_init ''silva.taxon'' species_taxon_id None of
             Inl e \<Rightarrow> Inl e
           | Inr taxon \<Rightarrow>
               annotate_object (HAS_TAXONOMIC_CLASSIFICATION r) taxon (Term_init new_ref)))"

section \<open>Properties of the escaping functions\<close>

lemma map_of_self_table:
  "map_of (map (\<lambda>c. (c, f c)) cs) k = (if k \<in> set cs then Some (f k) else None)"
  by (induction cs) auto

lemma dict_get_slim:
  "dict_get OBO_ESCAPE_SLIM c [c] =
     (if c \<in> set OBO_ESCAPE_SLIM_chars then [backslash, c] else [c])"
  by (simp add: dict_get_def OBO_ESCAPE_SLIM_def map_of_self_table)

lemma space_not_slim: "CHR '' '' \<notin> set OBO_ESCAPE_SLIM_chars"
  by (simp add: OBO_ESCAPE_SLIM_chars_def)

lemma newline_not_slim: "newline \<notin> set OBO_ESCAPE_SLIM_chars"
  by (simp add: OBO_ESCAPE_SLIM_chars_def)

lemma backslash_slim: "backslash \<in> set OBO_ESCAPE_SLIM_chars"
  by (simp add: OBO_ESCAPE_SLIM_chars_def)

lemma dict_get_full: "dict_get OBO_ESCAPE c [c] = escape_char c"
  using space_not_slim
  by (auto simp add: dict_get_def OBO_ESCAPE_def OBO_ESCAPE_SLIM_def map_of_self_table
      escape_char_def)

lemma obo_escape_concat: "obo_escape s = concat (map escape_char s)"
  by (simp add: obo_escape_def dict_get_full)

lemma replace_scan_single:
  "replace_scan [a] new s = concat (map (\<lambda>c. if c = a then new else [c]) s)"
  by (induction s) auto

lemma str_replace_single:
  "str_replace s [a] new = concat (map (\<lambda>c. if c = a then new else [c]) s)"
  by (simp add: str_replace_def replace_scan_single)

lemma concat_map_concat_map:
  "concat (map f (concat (map g xs))) = concat (map (\<lambda>x. concat (map f (g x))) xs)"
  by (induction xs) auto

lemma obo_escape_slim_concat: "obo_escape_slim s = concat (map escape_slim_char s)"
proof -
  have "concat (map (\<lambda>c. if c = newline then [backslash, CHR ''n''] else [c])
          (dict_get OBO_ESCAPE_SLIM c [c])) = escape_slim_char c" for c
    using newline_not_slim by (auto simp add: dict_get_slim escape_slim_char_def)
  then show ?thesis
    by (simp add: obo_escape_slim_def str_replace_single concat_map_concat_map)
qed

lemma slim_chars_set:
  "set OBO_ESCAPE_SLIM_chars =
     {CHR '':'', CHR '','', dquote, backslash, CHR ''('', CHR '')'',
      CHR ''['', CHR '']'', CHR ''{'', CHR ''}''}"
  by (simp add: OBO_ESCAPE_SLIM_chars_def)

lemma escape_char_explicit:
  "escape_char c =
     (if c \<in> {CHR '':'', CHR '','', dquote, backslash, CHR ''('', CHR '')'',
               CHR ''['', CHR '']'', CHR ''{'', CHR ''}''} then [backslash, c]
      else if c = CHR '' '' then [backslash, CHR ''W'']
      else [c])"
  unfolding escape_char_def slim_chars_set ..

lemma escape_slim_char_explicit:
  "escape_slim_char c =
     (if c \<in> {CHR '':'', CHR '','', dquote, backslash, CHR ''('', CHR '')'',
               CHR ''['', CHR '']'', CHR ''{'', CHR ''}''} then [backslash, c]
      else if c = newline then [backslash, CHR ''n'']
      else [c])"
  unfolding escape_slim_char_def slim_chars_set ..

lemma obo_escape_Nil: "obo_escape [] = []"
  by (simp add: obo_escape_concat)

lemma obo_escape_Cons: "obo_escape (c # s) = escape_char c @ obo_escape s"
  by (simp add: obo_escape_concat)

lemma obo_escape_append: "obo_escape (a @ b) = obo_escape a @ obo_escape b"
  by (simp add: obo_escape_concat)

lemma obo_escape_slim_Nil: "obo_escape_slim [] = []"
  by (simp add: obo_escape_slim_concat)

lemma obo_escape_slim_Cons: "obo_escape_slim (c # s) = escape_slim_char c @ obo_escape_slim s"
  by (simp add: obo_escape_slim_concat)

lemma obo_escape_slim_append:
  "obo_escape_slim (a @ b) = obo_escape_slim a @ obo_escape_slim b"
  by (simp add: obo_escape_slim_concat)

lemma obo_escape_single: "obo_escape [c] = escape_char c"
  by (simp add: obo_escape_concat)

lemma obo_escape_slim_single: "obo_escape_slim [c] = escape_slim_char c"
  by (simp add: obo_escape_slim_concat)

lemma escape_char_length: "length (escape_char c) = (if escape_char c = [c] then 1 else 2)"
  by (simp add: escape_char_def)

lemma escape_slim_char_length:
  "length (escape_slim_char c) = (if escape_slim_char c = [c] then 1 else 2)"
  by (simp add: escape_slim_char_def)

lemma length_concat_map_bounds:
  assumes "\<And>x. 1 \<le> length (f x) \<and> length (f x) \<le> 2"
  shows "length xs \<le> length (concat (map f xs)) \<and> length (concat (map f xs)) \<le> 2 * length xs"
proof (induction xs)
  case Nil
  show ?case by simp
next
  case (Cons x xs)
  with assms [of x] show ?case by simp
qed

lemma obo_escape_length_bounds:
  "length s \<le> length (obo_escape s) \<and> length (obo_escape s) \<le> 2 * length s"
  unfolding obo_escape_concat
  by (rule length_concat_map_bounds) (simp add: escape_char_length)

lemma obo_escape_slim_length_bounds:
  "length s \<le> length (obo_escape_slim s) \<and> length (obo_escape_slim s) \<le> 2 * length s"
  unfolding obo_escape_slim_concat
  by (rule length_concat_map_bounds) (simp add: escape_slim_char_length)

lemma escape_char_identity_iff:
  "escape_char c = [c] \<longleftrightarrow> c \<notin> fst ` set OBO_ESCAPE"
  using space_not_slim
  by (auto simp add: escape_char_def OBO_ESCAPE_def OBO_ESCAPE_SLIM_def image_image)

lemma escape_slim_char_identity_iff:
  "escape_slim_char c = [c] \<longleftrightarrow> c \<notin> fst ` set OBO_ESCAPE_SLIM \<and> c \<noteq> newline"
  using newline_not_slim
  by (auto simp add: escape_slim_char_def OBO_ESCAPE_SLIM_def image_image)

lemma concat_map_identity:
  assumes "\<And>x. x \<in> set xs \<Longrightarrow> f x = [x]"
  shows "concat (map f xs) = xs"
  using assms by (induction xs) auto

lemma concat_map_identity_iff:
  assumes "\<And>x. 1 \<le> length (f x)"
  shows "concat (map f xs) = xs \<longleftrightarrow> (\<forall>x \<in> set xs. f x = [x])"
proof
  assume "\<forall>x \<in> set xs. f x = [x]"
  then show "concat (map f xs) = xs" by (simp add: concat_map_identity)
next
  assume "concat (map f xs) = xs"
  then show "\<forall>x \<in> set xs. f x = [x]"
  proof (induction xs)
    case Nil
    show ?case by simp
  next
    case (Cons x xs)
    have le: "length ys \<le> length (concat (map f ys))" for ys
    proof (induction ys)
      case Nil
      show ?case by simp
    next
      case (Cons y ys)
      with assms [of y] show ?case by simp
    qed
    from Cons.prems have eq: "f x @ concat (map f xs) = x # xs" by simp
    then have "length (f x) + length (concat (map f xs)) = Suc (length xs)"
      by (metis length_append length_Cons)
    with le [of xs] assms [of x] have "length (f x) = 1" by simp
    then obtain y where fx: "f x = [y]"
      by (cases "f x") auto
    with eq have "y = x" and "concat (map f xs) = xs" by simp_all
    with fx Cons.IH show ?case by simp
  qed
qed

lemma obo_escape_identity_iff:
  "obo_escape s = s \<longleftrightarrow> set s \<inter> fst ` set OBO_ESCAPE = {}"
proof -
  have "obo_escape s = s \<longleftrightarrow> (\<forall>c \<in> set s. escape_char c = [c])"
    unfolding obo_escape_concat
    by (rule concat_map_identity_iff) (simp add: escape_char_length)
  then show ?thesis by (auto simp add: escape_char_identity_iff)
qed

lemma obo_escape_slim_identity_iff:
  "obo_escape_slim s = s \<longleftrightarrow> set s \<inter> (fst ` set OBO_ESCAPE_SLIM \<union> {newline}) = {}"
proof -
  have "obo_escape_slim s = s \<longleftrightarrow> (\<forall>c \<in> set s. escape_slim_char c = [c])"
    unfolding obo_escape_slim_concat
    by (rule concat_map_identity_iff) (simp add: escape_slim_char_length)
  then show ?thesis by (auto simp add: escape_slim_char_identity_iff)
qed

lemma obo_unescape_not_backslash:
  "c \<noteq> backslash \<Longrightarrow> obo_unescape (c # cs) = c # obo_unescape cs"
  by (cases cs) simp_all

lemma obo_unescape_slim_not_backslash:
  "c \<noteq> backslash \<Longrightarrow> obo_unescape_slim (c # cs) = c # obo_unescape_slim cs"
  by (cases cs) simp_all

lemma obo_unescape_step: "obo_unescape (escape_char c @ cs) = c # obo_unescape cs"
proof (cases "c \<in> set OBO_ESCAPE_SLIM_chars")
  case True
  then have "c \<noteq> CHR ''W''" by (auto simp add: OBO_ESCAPE_SLIM_chars_def)
  with True show ?thesis by (simp add: escape_char_def)
next
  case False
  then have "c \<noteq> backslash" using backslash_slim by auto
  with False show ?thesis by (simp add: escape_char_def obo_unescape_not_backslash)
qed

lemma obo_unescape_slim_step:
  "obo_unescape_slim (escape_slim_char c @ cs) = c # obo_unescape_slim cs"
proof (cases "c \<in> set OBO_ESCAPE_SLIM_chars")
  case True
  then have "c \<noteq> CHR ''n''" by (auto simp add: OBO_ESCAPE_SLIM_chars_def)
  with True show ?thesis by (simp add: escape_slim_char_def)
next
  case False
  then have "c \<noteq> backslash" using backslash_slim by auto
  with False show ?thesis
    by (simp add: escape_slim_char_def obo_unescape_slim_not_backslash)
qed

lemma obo_unescape_obo_escape: "obo_unescape (obo_escape s) = s"
  by (induction s) (simp_all add: obo_escape_Nil obo_escape_Cons obo_unescape_step)

lemma obo_unescape_slim_obo_escape_slim: "obo_unescape_slim (obo_escape_slim s) = s"
  by (induction s)
    (simp_all add: obo_escape_slim_Nil obo_escape_slim_Cons obo_unescape_slim_step)

lemma count_newline_escape_char:
  "count_list (escape_char c) newline = (if c = newline then 1 else 0)"
  by (simp add: escape_char_def)

lemma count_newline_obo_escape: "count_list (obo_escape s) newline = count_list s newline"
  by (induction s) (simp_all add: obo_escape_Nil obo_escape_Cons count_newline_escape_char)

lemma newline_not_in_escape_slim_char: "newline \<notin> set (escape_slim_char c)"
  using newline_not_slim by (simp add: escape_slim_char_def)

lemma newline_not_in_obo_escape_slim: "newline \<notin> set (obo_escape_slim s)"
  by (simp add: obo_escape_slim_concat newline_not_in_escape_slim_char)

subsection \<open>The claims about the escaping functions\<close>

text \<open>
  C2, refuted as stated. The claim counts nine characters that become a backslash
  followed by themselves. The table has ten: on the string of these ten distinct
  characters, \<^const>\<open>obo_escape\<close> prefixes every one of them with a backslash.
\<close>

theorem obo_escape_ten_characters:
  "distinct [CHR '':'', CHR '','', dquote, backslash, CHR ''('', CHR '')'',
      CHR ''['', CHR '']'', CHR ''{'', CHR ''}'']
   \<and> length [CHR '':'', CHR '','', dquote, backslash, CHR ''('', CHR '')'',
      CHR ''['', CHR '']'', CHR ''{'', CHR ''}''] = 10
   \<and> obo_escape [CHR '':'', CHR '','', dquote, backslash, CHR ''('', CHR '')'',
      CHR ''['', CHR '']'', CHR ''{'', CHR ''}''] =
     [backslash, CHR '':'', backslash, CHR '','', backslash, dquote, backslash, backslash,
      backslash, CHR ''('', backslash, CHR '')'', backslash, CHR ''['', backslash, CHR '']'',
      backslash, CHR ''{'', backslash, CHR ''}'']"
  by (simp add: obo_escape_concat escape_char_explicit)

text \<open>
  C2, as amended. \<^const>\<open>obo_escape\<close> maps each character of its input on its own: each
  of the ten characters colon, comma, double quote, backslash, open and close parenthesis,
  open and close square bracket, open and close curly brace becomes a backslash followed
  by that character, the space becomes backslash-W, every other character is unchanged;
  \<^verbatim>\<open>obo_escape("a b")\<close> is the four-character string a, backslash, W, b.
\<close>

theorem obo_escape_per_character:
  "obo_escape s =
     concat (map (\<lambda>c.
       if c \<in> {CHR '':'', CHR '','', dquote, backslash, CHR ''('', CHR '')'',
               CHR ''['', CHR '']'', CHR ''{'', CHR ''}''} then [backslash, c]
       else if c = CHR '' '' then [backslash, CHR ''W'']
       else [c]) s)
   \<and> obo_escape ''a b'' = [CHR ''a'', backslash, CHR ''W'', CHR ''b'']"
proof (rule conjI)
  show "obo_escape ''a b'' = [CHR ''a'', backslash, CHR ''W'', CHR ''b'']"
    by (simp add: obo_escape_concat escape_char_explicit)
next
  have "escape_char = (\<lambda>c.
       if c \<in> {CHR '':'', CHR '','', dquote, backslash, CHR ''('', CHR '')'',
               CHR ''['', CHR '']'', CHR ''{'', CHR ''}''} then [backslash, c]
       else if c = CHR '' '' then [backslash, CHR ''W'']
       else [c])"
    by (rule ext) (rule escape_char_explicit)
  then show "obo_escape s =
     concat (map (\<lambda>c.
       if c \<in> {CHR '':'', CHR '','', dquote, backslash, CHR ''('', CHR '')'',
               CHR ''['', CHR '']'', CHR ''{'', CHR ''}''} then [backslash, c]
       else if c = CHR '' '' then [backslash, CHR ''W'']
       else [c]) s)"
    by (simp only: obo_escape_concat)
qed

text \<open>
  C3, refuted as stated. The claim speaks of a nine-character escape table. The table
  \<^const>\<open>OBO_ESCAPE_SLIM\<close> has ten keys, and \<^const>\<open>obo_escape_slim\<close> prefixes each of
  these ten distinct characters with a backslash.
\<close>

theorem obo_escape_slim_ten_characters:
  "map fst OBO_ESCAPE_SLIM = [CHR '':'', CHR '','', dquote, backslash, CHR ''('', CHR '')'',
      CHR ''['', CHR '']'', CHR ''{'', CHR ''}'']
   \<and> distinct (map fst OBO_ESCAPE_SLIM)
   \<and> length OBO_ESCAPE_SLIM = 10
   \<and> obo_escape_slim (map fst OBO_ESCAPE_SLIM) =
     [backslash, CHR '':'', backslash, CHR '','', backslash, dquote, backslash, backslash,
      backslash, CHR ''('', backslash, CHR '')'', backslash, CHR ''['', backslash, CHR '']'',
      backslash, CHR ''{'', backslash, CHR ''}'']"
  by (simp add: obo_escape_slim_concat escape_slim_char_explicit OBO_ESCAPE_SLIM_def
      OBO_ESCAPE_SLIM_chars_def)

text \<open>
  C3, as amended. \<^const>\<open>obo_escape_slim\<close> applies the table of the same ten characters
  as \<^const>\<open>obo_escape\<close>, without the substitution of the space (a space stays a space),
  and after that pass replaces every newline by backslash-n;
  \<^verbatim>\<open>obo_escape_slim("a b")\<close> is \<^verbatim>\<open>"a b"\<close>, and \<^verbatim>\<open>line1\<close>, newline, \<^verbatim>\<open>line2\<close> becomes
  \<^verbatim>\<open>line1\<close>, backslash, n, \<^verbatim>\<open>line2\<close>.
\<close>

theorem obo_escape_slim_per_character:
  "obo_escape_slim s =
     str_replace
       (concat (map (\<lambda>c.
          if c \<in> {CHR '':'', CHR '','', dquote, backslash, CHR ''('', CHR '')'',
               CHR ''['', CHR '']'', CHR ''{'', CHR ''}''} then [backslash, c]
          else [c]) s))
       [newline] [backslash, CHR ''n'']
   \<and> str_replace r [newline] [backslash, CHR ''n''] =
       concat (map (\<lambda>c. if c = newline then [backslash, CHR ''n''] else [c]) r)
   \<and> obo_escape_slim (a @ CHR '' '' # b) = obo_escape_slim a @ CHR '' '' # obo_escape_slim b
   \<and> obo_escape_slim ''a b'' = ''a b''
   \<and> obo_escape_slim (''line1'' @ [newline] @ ''line2'') =
       ''line1'' @ [backslash, CHR ''n''] @ ''line2''"
proof -
  have "obo_escape_slim s =
     str_replace
       (concat (map (\<lambda>c.
          if c \<in> {CHR '':'', CHR '','', dquote, backslash, CHR ''('', CHR '')'',
               CHR ''['', CHR '']'', CHR ''{'', CHR ''}''} then [backslash, c]
          else [c]) s))
       [newline] [backslash, CHR ''n'']"
    by (simp only: obo_escape_slim_def dict_get_slim slim_chars_set Let_def)
  moreover have "obo_escape_slim (a @ CHR '' '' # b) =
      obo_escape_slim a @ CHR '' '' # obo_escape_slim b"
    by (simp add: obo_escape_slim_append obo_escape_slim_Cons escape_slim_char_explicit)
  moreover have "obo_escape_slim ''a b'' = ''a b''"
    by (simp add: obo_escape_slim_concat escape_slim_char_explicit)
  moreover have "obo_escape_slim (''line1'' @ [newline] @ ''line2'') =
       ''line1'' @ [backslash, CHR ''n''] @ ''line2''"
    by (simp add: obo_escape_slim_concat escape_slim_char_explicit)
  ultimately show ?thesis
    by (simp only: str_replace_single simp_thms)
qed

text \<open>
  C4. Each of \<^const>\<open>obo_escape\<close> and \<^const>\<open>obo_escape_slim\<close> is the left-to-right
  concatenation of what it makes of the single characters of its input. Nothing that
  was substituted is substituted again: no character yields more than two characters,
  and a single backslash yields exactly the two characters backslash, backslash.
\<close>

theorem escape_is_concatenation_per_character:
  "obo_escape s = concat (map (\<lambda>c. obo_escape [c]) s)
   \<and> obo_escape_slim s = concat (map (\<lambda>c. obo_escape_slim [c]) s)
   \<and> length (obo_escape s) \<le> 2 * length s
   \<and> length (obo_escape_slim s) \<le> 2 * length s
   \<and> obo_escape [backslash] = [backslash, backslash]
   \<and> obo_escape_slim [backslash] = [backslash, backslash]
   \<and> length (obo_escape [backslash]) = 2
   \<and> length (obo_escape_slim [backslash]) = 2"
proof -
  have "obo_escape s = concat (map (\<lambda>c. obo_escape [c]) s)"
    by (simp add: obo_escape_single) (rule obo_escape_concat)
  moreover have "obo_escape_slim s = concat (map (\<lambda>c. obo_escape_slim [c]) s)"
    by (simp add: obo_escape_slim_single) (rule obo_escape_slim_concat)
  moreover have "obo_escape [backslash] = [backslash, backslash]"
    by (simp add: obo_escape_single escape_char_explicit)
  moreover have "obo_escape_slim [backslash] = [backslash, backslash]"
    by (simp add: obo_escape_slim_single escape_slim_char_explicit)
  ultimately show ?thesis
    using obo_escape_length_bounds [of s] obo_escape_slim_length_bounds [of s] by simp
qed

text \<open>
  C5. On a string with none of the reserved characters both functions are the identity.
  The reserved characters are those either function substitutes: the keys of
  \<^const>\<open>OBO_ESCAPE\<close> (the space and the keys of \<^const>\<open>OBO_ESCAPE_SLIM\<close>) and the
  newline. The space and the newline have to be counted among them: the full escape
  changes a space, the slim escape changes a newline.
\<close>

theorem escape_identity_without_reserved:
  "(set s \<inter> (fst ` set OBO_ESCAPE \<union> {newline}) = {} \<longrightarrow>
      obo_escape s = s \<and> obo_escape_slim s = s)
   \<and> obo_escape '' '' = [backslash, CHR ''W'']
   \<and> obo_escape_slim [newline] = [backslash, CHR ''n'']"
proof (intro conjI impI)
  assume a: "set s \<inter> (fst ` set OBO_ESCAPE \<union> {newline}) = {}"
  then show "obo_escape s = s"
    by (auto simp add: obo_escape_identity_iff)
  from a have "set s \<inter> (fst ` set OBO_ESCAPE_SLIM \<union> {newline}) = {}"
    by (auto simp add: OBO_ESCAPE_def)
  then show "obo_escape_slim s = s"
    by (simp only: obo_escape_slim_identity_iff)
next
  show "obo_escape '' '' = [backslash, CHR ''W'']"
    by (simp add: obo_escape_single escape_char_explicit)
next
  show "obo_escape_slim [newline] = [backslash, CHR ''n'']"
    by (simp add: obo_escape_slim_single escape_slim_char_explicit)
qed

theorem escape_identity_without_reserved_witness:
  "set ''GO_term-7'' \<inter> (fst ` set OBO_ESCAPE \<union> {newline}) = {}
   \<and> obo_escape ''GO_term-7'' = ''GO_term-7''
   \<and> obo_escape_slim ''GO_term-7'' = ''GO_term-7''"
proof -
  have h: "set ''GO_term-7'' \<inter> (fst ` set OBO_ESCAPE \<union> {newline}) = {}"
    by (simp add: OBO_ESCAPE_def OBO_ESCAPE_SLIM_def OBO_ESCAPE_SLIM_chars_def)
  with escape_identity_without_reserved [of "''GO_term-7''"] show ?thesis
    by (simp only: simp_thms)
qed

text \<open>
  C8. Both functions are defined on every string (the model has no error value: neither
  \<^verbatim>\<open>dict.get\<close> with a default, nor \<^verbatim>\<open>str.join\<close> on strings, nor \<^verbatim>\<open>str.replace\<close>
  raises, and the scan of \<^const>\<open>str_replace\<close> terminates), and the output is at least as
  long as the input.
\<close>

theorem escape_output_not_shorter:
  "length s \<le> length (obo_escape s) \<and> length s \<le> length (obo_escape_slim s)"
  using obo_escape_length_bounds [of s] obo_escape_slim_length_bounds [of s] by simp

text \<open>
  C9. Each of the two functions is injective, and each has a decoder that recovers every
  input from its escaped output.
\<close>

theorem escape_injective:
  "(obo_escape s1 = obo_escape s2 \<longrightarrow> s1 = s2)
   \<and> (obo_escape_slim s1 = obo_escape_slim s2 \<longrightarrow> s1 = s2)
   \<and> obo_unescape (obo_escape s1) = s1
   \<and> obo_unescape_slim (obo_escape_slim s1) = s1"
proof -
  have "s1 = s2" if "obo_escape s1 = obo_escape s2"
  proof -
    from that have "obo_unescape (obo_escape s1) = obo_unescape (obo_escape s2)" by simp
    then show ?thesis by (simp only: obo_unescape_obo_escape)
  qed
  moreover have "s1 = s2" if "obo_escape_slim s1 = obo_escape_slim s2"
  proof -
    from that have "obo_unescape_slim (obo_escape_slim s1) =
        obo_unescape_slim (obo_escape_slim s2)" by simp
    then show ?thesis by (simp only: obo_unescape_slim_obo_escape_slim)
  qed
  ultimately show ?thesis
    by (simp add: obo_unescape_obo_escape obo_unescape_slim_obo_escape_slim)
qed

theorem escape_injective_witness:
  "obo_escape ''a b:c'' = obo_escape ''a b:c''
   \<and> obo_escape_slim ''a b:c'' = obo_escape_slim ''a b:c''
   \<and> obo_escape ''a b:c'' \<noteq> obo_escape ''a b;c''
   \<and> obo_unescape (obo_escape ''a b:c'') = ''a b:c''
   \<and> obo_unescape_slim (obo_escape_slim ''a b:c'') = ''a b:c''"
proof -
  have "obo_escape ''a b:c'' \<noteq> obo_escape ''a b;c''"
    using escape_injective [of "''a b:c''" "''a b;c''"] by auto
  then show ?thesis
    using escape_injective [of "''a b:c''" "''a b:c''"] by simp
qed

text \<open>
  C10. \<^const>\<open>obo_escape\<close> leaves the newline as it is: the table \<^const>\<open>OBO_ESCAPE\<close> has
  no entry for it, every newline of the input stands unchanged between the escaped parts
  before and after it, and the output has as many newlines as the input. Only
  \<^const>\<open>obo_escape_slim\<close> turns the newline into backslash-n, so that its output has no
  newline at all, while the output of the full escape can span several lines.
\<close>

theorem obo_escape_keeps_newline:
  "map_of OBO_ESCAPE newline = None
   \<and> obo_escape [newline] = [newline]
   \<and> obo_escape (a @ newline # b) = obo_escape a @ newline # obo_escape b
   \<and> count_list (obo_escape s) newline = count_list s newline
   \<and> obo_escape (''line1'' @ [newline] @ ''line2'') = ''line1'' @ [newline] @ ''line2''
   \<and> obo_escape_slim [newline] = [backslash, CHR ''n'']
   \<and> newline \<notin> set (obo_escape_slim s)"
proof -
  have "map_of OBO_ESCAPE newline = None"
    by (simp add: OBO_ESCAPE_def OBO_ESCAPE_SLIM_def OBO_ESCAPE_SLIM_chars_def)
  moreover have nl: "obo_escape [newline] = [newline]"
    by (simp add: obo_escape_single escape_char_explicit)
  moreover have "obo_escape (a @ newline # b) = obo_escape a @ newline # obo_escape b"
    by (simp add: obo_escape_append obo_escape_Cons escape_char_explicit)
  moreover have "obo_escape (''line1'' @ [newline] @ ''line2'') =
      ''line1'' @ [newline] @ ''line2''"
    by (simp add: obo_escape_concat escape_char_explicit)
  moreover have "obo_escape_slim [newline] = [backslash, CHR ''n'']"
    by (simp add: obo_escape_slim_single escape_slim_char_explicit)
  ultimately show ?thesis
    by (simp only: count_newline_obo_escape newline_not_in_obo_escape_slim simp_thms)
qed

section \<open>Properties of the term data model\<close>







lemma list_ex_append_last: "P x \<Longrightarrow> list_ex P (xs @ [x])"
  by (simp add: list_ex_iff)







lemma silva_taxmap_term_rejected:
  "accession \<noteq> [] \<Longrightarrow> species_taxon_id \<noteq> [] \<Longrightarrow>
   silva_taxmap_term r accession organism species_taxon_id = Inl InvalidTypeDef"
  by (simp add: silva_taxmap_term_def Reference_init_def annotate_object_def
      HAS_TAXONOMIC_CLASSIFICATION_def TypeDef_init_def)

subsection \<open>The claims about the term data model\<close>




text \<open>
  C7. With a non-empty prefix and a non-empty identifier the constructor returns a
  reference whatever the name, and two references built from the same prefix and
  identifier are equal and have the same hash, whatever their names. Two references are
  equal if and only if their prefixes and their identifiers are the same; changing the
  name of a reference changes neither what it is equal to nor its hash.
\<close>

theorem reference_identity_ignores_name:
  "(p \<noteq> [] \<and> i \<noteq> [] \<longrightarrow>
      Reference_init p i n1 = Inr \<lparr>prefix = p, identifier = i, name = n1\<rparr>
      \<and> Reference_init p i n2 = Inr \<lparr>prefix = p, identifier = i, name = n2\<rparr>
      \<and> Reference_eq \<lparr>prefix = p, identifier = i, name = n1\<rparr>
           \<lparr>prefix = p, identifier = i, name = n2\<rparr>
      \<and> Reference_hash h \<lparr>prefix = p, identifier = i, name = n1\<rparr> =
          Reference_hash h \<lparr>prefix = p, identifier = i, name = n2\<rparr>)
   \<and> Reference_eq a b = (prefix a = prefix b \<and> identifier a = identifier b)
   \<and> Reference_eq (a\<lparr>name := n\<rparr>) b = Reference_eq a b
   \<and> Reference_eq a (b\<lparr>name := n\<rparr>) = Reference_eq a b
   \<and> Reference_hash h (a\<lparr>name := n\<rparr>) = Reference_hash h a"
  by (simp add: Reference_init_def Reference_eq_def Reference_hash_def Reference_key_def)

theorem reference_identity_ignores_name_witness:
  "''go'' \<noteq> [] \<and> ''0005829'' \<noteq> []
   \<and> Reference_init ''go'' ''0005829'' (Some ''cytosol'') =
       Inr \<lparr>prefix = ''go'', identifier = ''0005829'', name = Some ''cytosol''\<rparr>
   \<and> Reference_init ''go'' ''0005829'' None =
       Inr \<lparr>prefix = ''go'', identifier = ''0005829'', name = None\<rparr>
   \<and> Reference_eq \<lparr>prefix = ''go'', identifier = ''0005829'', name = Some ''cytosol''\<rparr>
        \<lparr>prefix = ''go'', identifier = ''0005829'', name = None\<rparr>
   \<and> Reference_hash (\<lambda>k. int (length (fst k)) + 31 * int (length (snd k)))
        \<lparr>prefix = ''go'', identifier = ''0005829'', name = Some ''cytosol''\<rparr> =
       Reference_hash (\<lambda>k. int (length (fst k)) + 31 * int (length (snd k)))
        \<lparr>prefix = ''go'', identifier = ''0005829'', name = None\<rparr>
   \<and> \<not> Reference_eq \<lparr>prefix = ''go'', identifier = ''0005829'', name = Some ''cytosol''\<rparr>
        \<lparr>prefix = ''go'', identifier = ''0005737'', name = Some ''cytosol''\<rparr>"
  using reference_identity_ignores_name [of "''go''" "''0005829''" "Some ''cytosol''" None
      "\<lambda>k. int (length (fst k)) + 31 * int (length (snd k))"
      "\<lparr>prefix = ''go'', identifier = ''0005829'', name = Some ''cytosol''\<rparr>"
      "\<lparr>prefix = ''go'', identifier = ''0005737'', name = Some ''cytosol''\<rparr>"]
  by simp

end
